theory Spec2Isabelle
  imports Complex_Main
begin

section \<open>Values shared by the agents\<close>

text \<open>
  Python floats are modelled as \<^typ>\<open>real\<close> (no rounding, no NaN), instants of
  \<open>datetime\<close> as \<^typ>\<open>int\<close> microseconds counted from a midnight, and every read
  of \<open>datetime.utcnow()\<close> as an explicit argument of the function that makes it.
  Exceptions are the left summand of a sum type.
\<close>

datatype error = TypeError | IndexError | ValueError string | CollaboratorError string

text \<open>A telemetry value: \<open>None\<close>, a number, or anything else (a list of error codes, a string).\<close>

datatype tvalue = VNone | Num real | NonNum

text \<open>An f-string with one interpolated value: the text before it and the value.\<close>

datatype fstring = FString string tvalue

section \<open>HealthMonitorAgent\<close>

definition anomaly_thresholds :: "(string \<times> real) list" where
  "anomaly_thresholds =
    [(''battery_soh_critical'', 70),
     (''battery_soh_warning'', 80),
     (''battery_temp_critical'', 45),
     (''battery_temp_warning'', 40),
     (''voltage_imbalance_critical'', 0.5),
     (''voltage_imbalance_warning'', 0.3),
     (''motor_temp_critical'', 85),
     (''motor_temp_warning'', 75),
     (''coolant_temp_critical'', 95),
     (''coolant_temp_warning'', 85),
     (''coolant_level_critical'', 20),
     (''coolant_level_warning'', 30),
     (''motor_efficiency_critical'', 75),
     (''motor_efficiency_warning'', 80)]"

text \<open>\<open>self.anomaly_thresholds.get(key)\<close>: \<open>None\<close> for a missing key.\<close>

definition thresholds_get :: "string \<Rightarrow> real option" where
  "thresholds_get k = map_of anomaly_thresholds k"

text \<open>Truth value of an \<open>Optional[float]\<close>: \<open>None\<close> and \<open>0.0\<close> are falsy.\<close>

fun truthy :: "real option \<Rightarrow> bool" where
  "truthy None = False"
| "truthy (Some t) = (t \<noteq> 0)"

text \<open>
  \<open>threshold and value < threshold\<close> and \<open>threshold and value > threshold\<close>: the
  comparison is evaluated only for a truthy threshold, and raises \<open>TypeError\<close> when the
  value is not a number.
\<close>

fun below :: "real option \<Rightarrow> tvalue \<Rightarrow> error + bool" where
  "below None v = Inr False"
| "below (Some t) v =
     (if t = 0 then Inr False
      else (case v of Num x \<Rightarrow> Inr (x < t) | _ \<Rightarrow> Inl TypeError))"

fun above :: "real option \<Rightarrow> tvalue \<Rightarrow> error + bool" where
  "above None v = Inr False"
| "above (Some t) v =
     (if t = 0 then Inr False
      else (case v of Num x \<Rightarrow> Inr (x > t) | _ \<Rightarrow> Inl TypeError))"

record anomaly =
  metric :: string
  observed :: tvalue
  threshold :: "real option"
  severity :: string
  severity_score :: real
  message :: fstring
  historical_context :: "string option"

definition lower_is_worse :: "string list" where
  "lower_is_worse = [''battery_soh'', ''motor_efficiency'', ''coolant_level'']"

definition mk_anomaly :: "string \<Rightarrow> tvalue \<Rightarrow> real option \<Rightarrow> string \<Rightarrow> real \<Rightarrow> string \<Rightarrow> anomaly" where
  "mk_anomaly m v t sev score txt =
     \<lparr>metric = m, observed = v, threshold = t, severity = sev, severity_score = score,
      message = FString (m @ txt) v, historical_context = None\<rparr>"

definition check_metric_anomaly :: "string \<Rightarrow> tvalue \<Rightarrow> error + anomaly option" where
  "check_metric_anomaly m v =
     (let critical_threshold = thresholds_get (m @ ''_critical'');
          warning_threshold = thresholds_get (m @ ''_warning'')
      in if \<not> truthy critical_threshold \<and> \<not> truthy warning_threshold then Inr None
         else if m \<in> set lower_is_worse then
           (case below critical_threshold v of
              Inl e \<Rightarrow> Inl e
            | Inr True \<Rightarrow>
                Inr (Some (mk_anomaly m v critical_threshold ''critical'' 1.0 '' is critically low: ''))
            | Inr False \<Rightarrow>
                (case below warning_threshold v of
                   Inl e \<Rightarrow> Inl e
                 | Inr True \<Rightarrow>
                     Inr (Some (mk_anomaly m v warning_threshold ''warning'' 0.6 '' is below normal: ''))
                 | Inr False \<Rightarrow> Inr None))
         else
           (case above critical_threshold v of
              Inl e \<Rightarrow> Inl e
            | Inr True \<Rightarrow>
                Inr (Some (mk_anomaly m v critical_threshold ''critical'' 1.0 '' is critically high: ''))
            | Inr False \<Rightarrow>
                (case above warning_threshold v of
                   Inl e \<Rightarrow> Inl e
                 | Inr True \<Rightarrow>
                     Inr (Some (mk_anomaly m v warning_threshold ''warning'' 0.6 '' is above normal: ''))
                 | Inr False \<Rightarrow> Inr None)))"

text \<open>The placeholder table returned by \<open>_get_historical_anomalies\<close>.\<close>

definition get_historical_anomalies :: "int \<Rightarrow> (string \<times> string) list" where
  "get_historical_anomalies vehicle_id =
    [(''battery_soh'', ''Similar issue detected 2 months ago''),
     (''battery_temp'', ''Temperature spikes observed during summer months''),
     (''motor_efficiency'', ''Gradual decline over past 6 months'')]"

text \<open>
  The loop over \<open>telemetry.items()\<close>: \<open>None\<close> values are skipped, each other value is
  checked, and the first exception ends the loop.
\<close>

fun collect_anomalies :: "(string \<times> tvalue) list \<Rightarrow> error + anomaly list" where
  "collect_anomalies [] = Inr []"
| "collect_anomalies ((m, v) # rest) =
     (if v = VNone then collect_anomalies rest
      else (case check_metric_anomaly m v of
              Inl e \<Rightarrow> Inl e
            | Inr None \<Rightarrow> collect_anomalies rest
            | Inr (Some a) \<Rightarrow>
                (case collect_anomalies rest of
                   Inl e \<Rightarrow> Inl e
                 | Inr as \<Rightarrow> Inr (a # as))))"

text \<open>Python's \<open>max\<close> of a non-empty list.\<close>

fun py_max :: "real list \<Rightarrow> real" where
  "py_max [] = 0"
| "py_max [x] = x"
| "py_max (x # y # ys) = max x (py_max (y # ys))"

record detect_input =
  telemetry :: "(string \<times> tvalue) list"
  vehicle_id :: "int option"

record detect_result =
  res_vehicle_id :: "int option"
  anomalies_detected :: nat
  anomalies :: "anomaly list"
  overall_severity :: real
  requires_immediate_attention :: bool
  confidence :: real
  timestamp :: int

definition add_context :: "int option \<Rightarrow> anomaly list \<Rightarrow> anomaly list" where
  "add_context vid as =
     (case vid of
        None \<Rightarrow> as
      | Some i \<Rightarrow>
          if i = 0 then as
          else map (\<lambda>a. a\<lparr>historical_context :=
                      Some (case map_of (get_historical_anomalies i) (metric a) of
                              None \<Rightarrow> ''No historical data'' | Some c \<Rightarrow> c)\<rparr>) as)"

text \<open>\<open>_detect_anomalies\<close>; \<open>now\<close> is the clock read for the \<open>timestamp\<close> field.\<close>

definition detect_anomalies :: "int \<Rightarrow> detect_input \<Rightarrow> error + detect_result" where
  "detect_anomalies now data =
     (case collect_anomalies (telemetry data) of
        Inl e \<Rightarrow> Inl e
      | Inr found \<Rightarrow>
          (let as = add_context (vehicle_id data) found;
               severity_scores = map severity_score found;
               sev = (if severity_scores \<noteq> [] then py_max severity_scores else 0.0)
           in Inr \<lparr>res_vehicle_id = vehicle_id data,
                   anomalies_detected = length as,
                   anomalies = as,
                   overall_severity = sev,
                   requires_immediate_attention = (sev \<ge> 0.8),
                   confidence = (if as \<noteq> [] then 0.9 else 0.7),
                   timestamp = now\<rparr>))"

subsection \<open>Trend analysis\<close>

text \<open>
  \<open>np.polyfit(x, y, 1)\<close> belongs to numpy, so \<open>_calculate_trend\<close> takes it as the
  parameter \<open>polyfit\<close>, which returns the pair (slope, intercept). What numpy computes is,
  up to rounding, the least-squares line through the points; \<open>polyfit1\<close> is that line in
  closed form over the reals.
\<close>

definition polyfit1 :: "real list \<Rightarrow> real list \<Rightarrow> real \<times> real" where
  "polyfit1 xs ys =
     (let n = real (length xs);
          sx = sum_list xs;
          sy = sum_list ys;
          sxx = sum_list (map (\<lambda>x. x * x) xs);
          sxy = sum_list (map2 (*) xs ys);
          slope = (n * sxy - sx * sy) / (n * sxx - sx * sx);
          intercept = (sy - slope * sx) / n
      in (slope, intercept))"

record trend =
  direction :: string
  rate :: real
  trend_confidence :: real

definition calculate_trend :: "(real list \<Rightarrow> real list \<Rightarrow> real \<times> real) \<Rightarrow> real list \<Rightarrow> trend" where
  "calculate_trend polyfit vals =
     (if length vals < 2 then \<lparr>direction = ''stable'', rate = 0.0, trend_confidence = 0.0\<rparr>
      else
        (let x = map real [0..<length vals];
             y = vals;
             slope = fst (polyfit x y);
             direction = (if \<bar>slope\<bar> < 0.1 then ''stable''
                          else if slope > 0 then ''improving''
                          else ''declining'');
             y_pred = map (\<lambda>xi. fst (polyfit x y) * xi + snd (polyfit x y)) x;
             ss_res = sum_list (map2 (\<lambda>a b. (a - b)\<^sup>2) y y_pred);
             mean = sum_list y / real (length y);
             ss_tot = sum_list (map (\<lambda>a. (a - mean)\<^sup>2) y);
             r_squared = (if ss_tot \<noteq> 0 then 1 - ss_res / ss_tot else 0)
         in \<lparr>direction = direction, rate = \<bar>slope\<bar>,
             trend_confidence = max 0.0 (min 1.0 r_squared)\<rparr>))"

text \<open>Rows of the \<open>vehicle_telemetry\<close> table, with the column the trend analysis reads.\<close>

record telemetry_row =
  row_vehicle_id :: int
  row_timestamp :: int
  battery_soh :: "real option"

definition us_per_minute :: int where "us_per_minute = 60000000"
definition us_per_hour :: int where "us_per_hour = 3600000000"
definition us_per_day :: int where "us_per_day = 86400000000"

text \<open>
  \<open>_get_historical_telemetry\<close>: the rows of the vehicle not older than \<open>days\<close> days,
  ordered by \<open>timestamp.desc()\<close>, that is newest first.
\<close>

definition get_historical_telemetry :: "int \<Rightarrow> telemetry_row list \<Rightarrow> int \<Rightarrow> int \<Rightarrow> telemetry_row list" where
  "get_historical_telemetry now table vid days =
     rev (sort_key row_timestamp
            (filter (\<lambda>r. row_vehicle_id r = vid \<and> row_timestamp r \<ge> now - days * us_per_day) table))"

datatype trends_result = Trends_error string | Trends "(string \<times> trend) list"

definition analyze_trends ::
  "(real list \<Rightarrow> real list \<Rightarrow> real \<times> real) \<Rightarrow> int \<Rightarrow> telemetry_row list \<Rightarrow> int \<Rightarrow> trends_result" where
  "analyze_trends polyfit now table vid =
     (let historical_data = get_historical_telemetry now table vid 7
      in if length historical_data < 3 then Trends_error ''Insufficient data for trend analysis''
         else
           (let battery_soh_values = concat (map (\<lambda>t. case battery_soh t of None \<Rightarrow> [] | Some v \<Rightarrow> [v]) historical_data)
            in if length battery_soh_values \<ge> 3
               then Trends [(''battery_soh'', calculate_trend polyfit battery_soh_values)]
               else Trends []))"

section \<open>PlannerAgent\<close>

record workshop =
  workshop_id :: string
  workshop_name :: string
  location :: string
  specialties :: "string list"
  rating :: "real option"

record booking =
  booking_id :: nat
  b_vehicle_id :: int
  b_workshop_id :: string
  b_workshop_name :: string
  booking_slot :: int
  service_type :: string
  estimated_duration :: "int option"
  priority :: string
  status :: string
  predicted_issue :: "fstring option"
  confidence_score :: real
  recommended_actions :: "string list"

definition booking_priorities :: "(string \<times> (nat \<times> int)) list" where
  "booking_priorities =
     [(''critical'', (1, 24)),
      (''high'', (2, 72)),
      (''normal'', (3, 168)),
      (''low'', (4, 336))]"

text \<open>
  \<open>self.booking_priorities.get(priority, self.booking_priorities["normal"])["max_delay_hours"]\<close>.
\<close>

definition max_delay_hours :: "string \<Rightarrow> int" where
  "max_delay_hours p =
     (case map_of booking_priorities p of
        Some c \<Rightarrow> snd c
      | None \<Rightarrow> (case map_of booking_priorities ''normal'' of Some c \<Rightarrow> snd c | None \<Rightarrow> 0))"

definition duration_mapping :: "(string \<times> int) list" where
  "duration_mapping =
     [(''inspection'', 60),
      (''preventive'', 120),
      (''corrective'', 180),
      (''emergency'', 240),
      (''battery_service'', 90),
      (''motor_service'', 150),
      (''cooling_service'', 120),
      (''general'', 120)]"

definition estimate_service_duration :: "string \<Rightarrow> int" where
  "estimate_service_duration st = (case map_of duration_mapping st of Some d \<Rightarrow> d | None \<Rightarrow> 120)"

text \<open>\<open>booking.estimated_duration or 120\<close>: a missing or zero duration counts as 120 minutes.\<close>

definition duration_or_120 :: "booking \<Rightarrow> int" where
  "duration_or_120 b = (case estimated_duration b of None \<Rightarrow> 120 | Some d \<Rightarrow> if d = 0 then 120 else d)"

definition booking_end :: "booking \<Rightarrow> int" where
  "booking_end b = booking_slot b + duration_or_120 b * us_per_minute"

text \<open>The overlap test of the slot search, for the candidate \<open>[slot_time, slot_end)\<close>.\<close>

definition conflicts :: "int \<Rightarrow> int \<Rightarrow> booking \<Rightarrow> bool" where
  "conflicts slot_time slot_end b = (slot_time < booking_end b \<and> slot_end > booking_slot b)"

text \<open>\<open>replace(hour=h, minute=0, second=0, microsecond=0)\<close> on an instant.\<close>

definition replace_hour :: "int \<Rightarrow> int \<Rightarrow> int" where
  "replace_hour h t = t - t mod us_per_day + h * us_per_hour"

definition minute_of :: "int \<Rightarrow> int" where
  "minute_of t = (t mod us_per_hour) div us_per_minute"

text \<open>The hourly scan of one day: \<open>while slot_time < day_end\<close>.\<close>

function scan_day :: "booking list \<Rightarrow> int \<Rightarrow> int \<Rightarrow> int \<Rightarrow> int option" where
  "scan_day existing service_duration slot_time day_end =
     (if slot_time < day_end then
        (let slot_end = slot_time + service_duration * us_per_minute
         in if \<not> list_ex (conflicts slot_time slot_end) existing then Some slot_time
            else scan_day existing service_duration (slot_time + us_per_hour) day_end)
      else None)"
  by pat_completeness auto
termination
  by (relation "measure (\<lambda>(e, d, s, de). nat (de - s))") (auto simp: us_per_hour_def)

text \<open>The loop \<open>for day_offset in range(30)\<close>, over the remaining offsets.\<close>

fun scan_days :: "booking list \<Rightarrow> int \<Rightarrow> int \<Rightarrow> int list \<Rightarrow> int option" where
  "scan_days existing service_duration current_time [] = None"
| "scan_days existing service_duration current_time (day_offset # rest) =
     (let day_start = replace_hour 8 (current_time + day_offset * us_per_day);
          day_end = replace_hour 18 day_start
      in case scan_day existing service_duration day_start day_end of
           Some t \<Rightarrow> Some t
         | None \<Rightarrow> scan_days existing service_duration current_time rest)"

definition active_statuses :: "string list" where
  "active_statuses = [''scheduled'', ''confirmed'', ''in_progress'']"

text \<open>
  \<open>_find_next_available_slot\<close>. It reads the clock twice: \<open>now_q\<close> in the query for the
  existing bookings, \<open>now_c\<close> for \<open>current_time\<close>.
\<close>

definition existing_bookings :: "int \<Rightarrow> booking list \<Rightarrow> string \<Rightarrow> booking list" where
  "existing_bookings now_q table wid =
     sort_key booking_slot
       (filter (\<lambda>b. b_workshop_id b = wid \<and> booking_slot b \<ge> now_q \<and> status b \<in> set active_statuses) table)"

definition find_next_available_slot :: "int \<Rightarrow> int \<Rightarrow> booking list \<Rightarrow> string \<Rightarrow> string \<Rightarrow> int option" where
  "find_next_available_slot now_q now_c table wid st =
     (let existing = existing_bookings now_q table wid;
          current_time = (if minute_of now_c > 0
                          then now_c - now_c mod us_per_hour + us_per_hour
                          else now_c);
          service_duration = estimate_service_duration st
      in scan_days existing service_duration current_time (map int [0..<30]))"

record slot =
  slot_workshop_id :: string
  slot_workshop_name :: string
  slot_location :: string
  slot_time :: int
  slot_estimated_duration :: int
  availability_confidence :: real

text \<open>
  One iteration of the loop of \<open>_find_optimal_slot\<close>, up to the score: \<open>None\<close> where the
  source says \<open>continue\<close>, \<open>TypeError\<close> where the workshop has no rating to multiply.
  The iteration for the \<open>i\<close>-th workshop reads the clock up to three times: \<open>clk i 0\<close>
  and \<open>clk i 1\<close> inside \<open>_find_next_available_slot\<close>, \<open>clk i 2\<close> for the delay.
\<close>

definition candidate ::
  "(nat \<Rightarrow> nat \<Rightarrow> int) \<Rightarrow> booking list \<Rightarrow> int \<Rightarrow> string \<Rightarrow> nat \<Rightarrow> workshop \<Rightarrow> error + (real \<times> slot) option" where
  "candidate clk table max_delay st i w =
     (case find_next_available_slot (clk i 0) (clk i 1) table (workshop_id w) st of
        None \<Rightarrow> Inr None
      | Some t \<Rightarrow>
          (let delay_hours = real_of_int (t - clk i 2) / 1000000 / 3600
           in if delay_hours > real_of_int max_delay then Inr None
              else (case rating w of
                      None \<Rightarrow> Inl TypeError
                    | Some r \<Rightarrow>
                        Inr (Some (delay_hours - r * 10,
                                   \<lparr>slot_workshop_id = workshop_id w,
                                    slot_workshop_name = workshop_name w,
                                    slot_location = location w,
                                    slot_time = t,
                                    slot_estimated_duration = estimate_service_duration st,
                                    availability_confidence = 0.8\<rparr>)))))"

text \<open>\<open>score < best_score\<close>, where \<open>best_score\<close> starts as infinity (\<open>None\<close> here).\<close>

fun improves :: "real \<Rightarrow> (real \<times> slot) option \<Rightarrow> bool" where
  "improves score None = True"
| "improves score (Some (best_score, best_slot)) = (score < best_score)"

fun optimal_loop ::
  "(nat \<Rightarrow> nat \<Rightarrow> int) \<Rightarrow> booking list \<Rightarrow> int \<Rightarrow> string \<Rightarrow> nat \<Rightarrow> workshop list \<Rightarrow> (real \<times> slot) option
     \<Rightarrow> error + (real \<times> slot) option" where
  "optimal_loop clk table max_delay st i [] best = Inr best"
| "optimal_loop clk table max_delay st i (w # ws) best =
     (case candidate clk table max_delay st i w of
        Inl e \<Rightarrow> Inl e
      | Inr None \<Rightarrow> optimal_loop clk table max_delay st (Suc i) ws best
      | Inr (Some (score, s)) \<Rightarrow>
          if improves score best
          then optimal_loop clk table max_delay st (Suc i) ws (Some (score, s))
          else optimal_loop clk table max_delay st (Suc i) ws best)"

definition find_optimal_slot ::
  "(nat \<Rightarrow> nat \<Rightarrow> int) \<Rightarrow> booking list \<Rightarrow> workshop list \<Rightarrow> string \<Rightarrow> string \<Rightarrow> error + slot option" where
  "find_optimal_slot clk table ws p st =
     (case optimal_loop clk table (max_delay_hours p) st 0 ws None of
        Inl e \<Rightarrow> Inl e
      | Inr best \<Rightarrow> Inr (map_option snd best))"

text \<open>
  The scoring rule in words, to compare the loop with: the feasible pairs are the scored
  slots of the workshops in the order of enumeration, and the selection is the first pair
  whose score no other pair undercuts.
\<close>

fun feasible_pairs ::
  "(nat \<Rightarrow> nat \<Rightarrow> int) \<Rightarrow> booking list \<Rightarrow> int \<Rightarrow> string \<Rightarrow> nat \<Rightarrow> workshop list \<Rightarrow> (real \<times> slot) list" where
  "feasible_pairs clk table max_delay st i [] = []"
| "feasible_pairs clk table max_delay st i (w # ws) =
     (case candidate clk table max_delay st i w of
        Inr (Some c) \<Rightarrow> c # feasible_pairs clk table max_delay st (Suc i) ws
      | _ \<Rightarrow> feasible_pairs clk table max_delay st (Suc i) ws)"

definition first_minimal :: "(real \<times> slot) list \<Rightarrow> (real \<times> slot) option" where
  "first_minimal cs = find (\<lambda>c. list_all (\<lambda>c'. fst c \<le> fst c') cs) cs"

subsection \<open>The record store and the scheduler operations\<close>

record store =
  vehicles :: "int list"
  workshops :: "workshop list"
  bookings :: "booking list"

text \<open>The key the store gives a new booking row.\<close>

definition fresh_booking_id :: "booking list \<Rightarrow> nat" where
  "fresh_booking_id table = Suc (fold max (map booking_id table) 0)"

text \<open>
  \<open>_find_suitable_workshops\<close> is one query, whose filter applies the column operator
  \<open>contains\<close> to the \<open>specialties\<close> column three times. How the database evaluates
  \<open>Workshop.specialties.contains(xs)\<close> on a row is the parameter \<open>contains\<close>; the rows
  come back in the order of the table.
\<close>

definition find_suitable_workshops :: "(string list \<Rightarrow> string list \<Rightarrow> bool) \<Rightarrow> store \<Rightarrow> string \<Rightarrow> workshop list" where
  "find_suitable_workshops contains db st =
     filter (\<lambda>w. contains (specialties w) [st] \<or> contains (specialties w) [''all'']
                  \<or> contains (specialties w) [''general''])
       (workshops db)"

text \<open>\<open>BaseAgent._calculate_confidence\<close>: the mean of the entries whose key ends in \<open>_confidence\<close>.\<close>

definition ends_with :: "string \<Rightarrow> string \<Rightarrow> bool" where
  "ends_with suf s = (length suf \<le> length s \<and> drop (length s - length suf) s = suf)"

definition calculate_confidence :: "(string \<times> real) list \<Rightarrow> real" where
  "calculate_confidence metrics =
     (let counted = filter (\<lambda>(k, v). ends_with ''_confidence'' k) metrics
      in if length counted > 0 then sum_list (map snd counted) / real (length counted) else 0.5)"

record booking_request =
  req_vehicle_id :: int
  req_service_type :: string
  req_priority :: string
  req_predicted_issue :: "fstring option"
  req_confidence_score :: real
  req_recommended_actions :: "string list"

record booking_info =
  info_booking_id :: nat
  info_vehicle_id :: int
  info_workshop_id :: string
  info_workshop_name :: string
  info_location :: string
  info_booking_slot :: int
  info_estimated_duration :: int
  info_service_type :: string
  info_priority :: string
  info_status :: string
  info_confidence :: real
  info_timestamp :: int

text \<open>
  What \<open>_schedule_booking\<close> returns: a dictionary with an \<open>error\<close> key (and, for the
  last case, the number of workshops checked), or the description of the booking.
\<close>

datatype schedule_result =
    Vehicle_not_found
  | No_available_workshops
  | No_available_slots nat
  | Scheduled booking_info

text \<open>The \<open>Booking\<close> row built from the request and the chosen slot, with the key \<open>k\<close>.\<close>

definition new_booking :: "booking_request \<Rightarrow> slot \<Rightarrow> nat \<Rightarrow> booking" where
  "new_booking req optimal_slot k =
     \<lparr>booking_id = k,
      b_vehicle_id = req_vehicle_id req,
      b_workshop_id = slot_workshop_id optimal_slot,
      b_workshop_name = slot_workshop_name optimal_slot,
      booking_slot = slot_time optimal_slot,
      service_type = req_service_type req,
      estimated_duration = Some (slot_estimated_duration optimal_slot),
      priority = req_priority req,
      status = ''scheduled'',
      predicted_issue = req_predicted_issue req,
      confidence_score = req_confidence_score req,
      recommended_actions = req_recommended_actions req\<rparr>"

text \<open>The dictionary returned for a booking that was created.\<close>

definition booking_info_of :: "booking_request \<Rightarrow> slot \<Rightarrow> nat \<Rightarrow> int \<Rightarrow> booking_info" where
  "booking_info_of req optimal_slot k now =
     \<lparr>info_booking_id = k,
      info_vehicle_id = req_vehicle_id req,
      info_workshop_id = slot_workshop_id optimal_slot,
      info_workshop_name = slot_workshop_name optimal_slot,
      info_location = slot_location optimal_slot,
      info_booking_slot = slot_time optimal_slot,
      info_estimated_duration = slot_estimated_duration optimal_slot,
      info_service_type = req_service_type req,
      info_priority = req_priority req,
      info_status = ''scheduled'',
      info_confidence =
        calculate_confidence
          [(''workshop_availability'', availability_confidence optimal_slot),
           (''scheduling_confidence'', 0.9)],
      info_timestamp = now\<rparr>"

text \<open>
  \<open>_schedule_booking\<close>. The clock \<open>clk\<close> is read by \<open>_find_optimal_slot\<close>, \<open>now\<close> is the
  read for the timestamp of the result.
\<close>

definition schedule_booking ::
  "(string list \<Rightarrow> string list \<Rightarrow> bool) \<Rightarrow> (nat \<Rightarrow> nat \<Rightarrow> int) \<Rightarrow> int \<Rightarrow> booking_request \<Rightarrow> store
     \<Rightarrow> (error + schedule_result) \<times> store" where
  "schedule_booking contains clk now req db =
     (if req_vehicle_id req \<notin> set (vehicles db) then (Inr Vehicle_not_found, db)
      else
        (let ws = find_suitable_workshops contains db (req_service_type req)
         in if ws = [] then (Inr No_available_workshops, db)
            else
              (case find_optimal_slot clk (bookings db) ws (req_priority req) (req_service_type req) of
                 Inl e \<Rightarrow> (Inl e, db)
               | Inr None \<Rightarrow> (Inr (No_available_slots (length ws)), db)
               | Inr (Some optimal_slot) \<Rightarrow>
                   (let b = new_booking req optimal_slot (fresh_booking_id (bookings db))
                    in (Inr (Scheduled (booking_info_of req optimal_slot (booking_id b) now)),
                        db\<lparr>bookings := bookings db @ [b]\<rparr>)))))"



















section \<open>BaseAgent.execute_with_logging and the AgentCoordinator\<close>

text \<open>
  The dictionaries the coordinator hands to the agents. None of them has an \<open>action\<close>
  key, so the data is the payload together with an absent action; only
  \<open>execute_agent_action\<close> stores one.
\<close>

datatype payload =
    Log_telemetry int "(string \<times> tvalue) list" int
  | Anomaly_detection detect_input
  | Schedule_booking booking_request
  | Send_booking_confirmation nat
  | Send_alert int string string "anomaly list" real "(string \<times> tvalue) list"

record agent_data =
  action :: "string option"
  payload :: payload

text \<open>A row of the \<open>agent_actions\<close> table, as \<open>log_action\<close> writes it.\<close>

record agent_action =
  agent_name :: string
  action_type :: string
  action_vehicle_id :: "int option"
  input_data :: agent_data
  action_status :: string
  error_message :: "error option"



text \<open>
  What the health monitor returns: the report of \<open>_detect_anomalies\<close>, or a dictionary
  without the key \<open>anomalies_detected\<close> (a health check, a prediction, an error report).
\<close>

datatype 'h health_result = Anomaly_report detect_result | Other_report 'h

text \<open>
  \<open>HealthMonitorAgent.process\<close>: the dispatch on \<open>data.get("action", "health_check")\<close>.
  The two operations that query the database are parameters.
\<close>

definition payload_vehicle_id :: "payload \<Rightarrow> int option" where
  "payload_vehicle_id p =
     (case p of
        Log_telemetry v t n \<Rightarrow> Some v
      | Anomaly_detection d \<Rightarrow> vehicle_id d
      | Schedule_booking r \<Rightarrow> Some (req_vehicle_id r)
      | Send_booking_confirmation b \<Rightarrow> None
      | Send_alert v a s as sev t \<Rightarrow> Some v)"

definition payload_telemetry :: "payload \<Rightarrow> (string \<times> tvalue) list" where
  "payload_telemetry p =
     (case p of
        Log_telemetry v t n \<Rightarrow> t
      | Anomaly_detection d \<Rightarrow> telemetry d
      | _ \<Rightarrow> [])"

definition health_monitor_process ::
  "(int option \<Rightarrow> 'w \<Rightarrow> (error + 'h) \<times> 'w) \<Rightarrow> (int option \<Rightarrow> 'w \<Rightarrow> (error + 'h) \<times> 'w) \<Rightarrow> int
     \<Rightarrow> agent_data \<Rightarrow> 'w \<Rightarrow> (error + 'h health_result) \<times> 'w" where
  "health_monitor_process perform_health_check predict_maintenance_needs now data w =
     (let action_type = (case action data of None \<Rightarrow> ''health_check'' | Some a \<Rightarrow> a)
      in if action_type = ''health_check'' then
           (case perform_health_check (payload_vehicle_id (payload data)) w of
              (Inl e, w') \<Rightarrow> (Inl e, w')
            | (Inr h, w') \<Rightarrow> (Inr (Other_report h), w'))
         else if action_type = ''anomaly_detection'' then
           (case detect_anomalies now
                   \<lparr>telemetry = payload_telemetry (payload data),
                    vehicle_id = payload_vehicle_id (payload data)\<rparr> of
              Inl e \<Rightarrow> (Inl e, w)
            | Inr r \<Rightarrow> (Inr (Anomaly_report r), w))
         else if action_type = ''predictive_analysis'' then
           (case predict_maintenance_needs (payload_vehicle_id (payload data)) w of
              (Inl e, w') \<Rightarrow> (Inl e, w')
            | (Inr h, w') \<Rightarrow> (Inr (Other_report h), w'))
         else (Inl (ValueError (''Unknown action type: '' @ action_type)), w))"


text \<open>\<open>workflow_results\<close>: a key is present once its stage has returned.\<close>

record ('l, 'h, 'c) workflow_results =
  logging :: "'l option"
  health_monitoring :: "'h health_result option"
  booking :: "schedule_result option"
  booking_communication :: "'c option"
  alert_communication :: "'c option"













section \<open>Properties\<close>

lemma append_eq_literal:
  "(m @ s = t) = (length s \<le> length t \<and> m = take (length t - length s) t \<and> s = drop (length t - length s) t)"
  by (metis append_eq_conv_conj append_take_drop_id diff_add_inverse2 length_append length_drop le_add2)

lemma thresholds_critical:
  assumes "thresholds_get (m @ ''_critical'') = Some c"
  shows "(m, c) \<in> set [(''battery_soh'', 70), (''battery_temp'', 45), (''voltage_imbalance'', 0.5),
     (''motor_temp'', 85), (''coolant_temp'', 95), (''coolant_level'', 20), (''motor_efficiency'', 75)]"
  using assms
  by (auto simp: thresholds_get_def anomaly_thresholds_def append_eq_literal split: if_splits)

lemma thresholds_warning:
  assumes "thresholds_get (m @ ''_warning'') = Some w"
  shows "(m, w) \<in> set [(''battery_soh'', 80), (''battery_temp'', 40), (''voltage_imbalance'', 0.3),
     (''motor_temp'', 75), (''coolant_temp'', 85), (''coolant_level'', 30), (''motor_efficiency'', 80)]"
  using assms
  by (auto simp: thresholds_get_def anomaly_thresholds_def append_eq_literal split: if_splits)

lemma configured:
  assumes "thresholds_get (m @ ''_critical'') = Some c" "thresholds_get (m @ ''_warning'') = Some w"
  shows "(m, c, w) \<in> set [(''battery_soh'', 70, 80), (''battery_temp'', 45, 40), (''voltage_imbalance'', 0.5, 0.3),
     (''motor_temp'', 85, 75), (''coolant_temp'', 95, 85), (''coolant_level'', 20, 30), (''motor_efficiency'', 75, 80)]"
  using thresholds_critical[OF assms(1)] thresholds_warning[OF assms(2)] by auto

lemma threshold_values:
  "thresholds_get ''battery_soh_critical'' = Some 70" "thresholds_get ''battery_soh_warning'' = Some 80"
  "thresholds_get ''battery_temp_critical'' = Some 45" "thresholds_get ''battery_temp_warning'' = Some 40"
  by (simp_all add: thresholds_get_def anomaly_thresholds_def)

lemma cw:
  assumes "thresholds_get (m @ ''_critical'') = Some c" and "thresholds_get (m @ ''_warning'') = Some w"
  shows "c \<noteq> 0 \<and> w \<noteq> 0 \<and> (if m \<in> set lower_is_worse then c < w else w < c)"
proof -
  from configured[OF assms] have
    "m = ''battery_soh'' \<and> c = 70 \<and> w = 80 \<or> m = ''battery_temp'' \<and> c = 45 \<and> w = 40 \<or>
     m = ''voltage_imbalance'' \<and> c = 0.5 \<and> w = 0.3 \<or> m = ''motor_temp'' \<and> c = 85 \<and> w = 75 \<or>
     m = ''coolant_temp'' \<and> c = 95 \<and> w = 85 \<or> m = ''coolant_level'' \<and> c = 20 \<and> w = 30 \<or>
     m = ''motor_efficiency'' \<and> c = 75 \<and> w = 80"
    by simp
  then show ?thesis
    apply (elim disjE conjE)
          apply (simp_all only:)
          apply (simp_all add: lower_is_worse_def)
    done
qed

lemma check_lower_eq:
  assumes "m \<in> set lower_is_worse"
    and "thresholds_get (m @ ''_critical'') = Some c" and "thresholds_get (m @ ''_warning'') = Some w"
    and "c \<noteq> 0" and "w \<noteq> 0"
  shows "check_metric_anomaly m (Num x) =
           Inr (if x < c then Some (mk_anomaly m (Num x) (Some c) ''critical'' 1.0 '' is critically low: '')
                else if x < w then Some (mk_anomaly m (Num x) (Some w) ''warning'' 0.6 '' is below normal: '')
                else None)"
  using assms by (simp add: check_metric_anomaly_def)

lemma check_higher_eq:
  assumes "m \<notin> set lower_is_worse"
    and "thresholds_get (m @ ''_critical'') = Some c" and "thresholds_get (m @ ''_warning'') = Some w"
    and "c \<noteq> 0" and "w \<noteq> 0"
  shows "check_metric_anomaly m (Num x) =
           Inr (if x > c then Some (mk_anomaly m (Num x) (Some c) ''critical'' 1.0 '' is critically high: '')
                else if x > w then Some (mk_anomaly m (Num x) (Some w) ''warning'' 0.6 '' is above normal: '')
                else None)"
  using assms by (simp add: check_metric_anomaly_def)

text \<open>
  Claim C4, direction-aware threshold classification. For a metric whose critical threshold
  \<open>c\<close> and warning threshold \<open>w\<close> are both configured, \<open>_check_metric_anomaly\<close> returns without
  an exception on every number \<open>x\<close>. For a lower-is-worse metric (\<open>battery_soh\<close>,
  \<open>motor_efficiency\<close>, \<open>coolant_level\<close>) the thresholds satisfy \<open>c < w\<close> and the result is an
  anomaly of severity \<open>critical\<close> and score 1.0 against \<open>c\<close> when \<open>x < c\<close>, an anomaly of
  severity \<open>warning\<close> and score 0.6 against \<open>w\<close> when \<open>c \<le> x < w\<close>, and no anomaly when
  \<open>w \<le> x\<close>. For every other configured metric \<open>w < c\<close> and the comparisons are reversed:
  critical when \<open>x > c\<close>, warning when \<open>w < x \<le> c\<close>, no anomaly when \<open>x \<le> w\<close>. So a value
  on the safe side of the warning threshold never produces an anomaly.
\<close>

theorem check_metric_anomaly_direction:
  assumes "thresholds_get (m @ ''_critical'') = Some c" and "thresholds_get (m @ ''_warning'') = Some w"
  shows "if m \<in> set lower_is_worse
         then c < w \<and> check_metric_anomaly m (Num x) =
                Inr (if x < c
                     then Some \<lparr>metric = m, observed = Num x, threshold = Some c,
                                severity = ''critical'', severity_score = 1.0,
                                message = FString (m @ '' is critically low: '') (Num x),
                                historical_context = None\<rparr>
                     else if x < w
                     then Some \<lparr>metric = m, observed = Num x, threshold = Some w,
                                severity = ''warning'', severity_score = 0.6,
                                message = FString (m @ '' is below normal: '') (Num x),
                                historical_context = None\<rparr>
                     else None)
         else w < c \<and> check_metric_anomaly m (Num x) =
                Inr (if x > c
                     then Some \<lparr>metric = m, observed = Num x, threshold = Some c,
                                severity = ''critical'', severity_score = 1.0,
                                message = FString (m @ '' is critically high: '') (Num x),
                                historical_context = None\<rparr>
                     else if x > w
                     then Some \<lparr>metric = m, observed = Num x, threshold = Some w,
                                severity = ''warning'', severity_score = 0.6,
                                message = FString (m @ '' is above normal: '') (Num x),
                                historical_context = None\<rparr>
                     else None)"
proof (cases "m \<in> set lower_is_worse")
  case True
  from cw[OF assms] True have cw: "c \<noteq> 0" "w \<noteq> 0" "c < w" by simp_all
  from check_lower_eq[OF True assms cw(1,2), unfolded mk_anomaly_def] cw(3) True
  show ?thesis by (simp only: if_True simp_thms)
next
  case False
  from cw[OF assms] False have cw: "c \<noteq> 0" "w \<noteq> 0" "w < c" by simp_all
  from check_higher_eq[OF False assms cw(1,2), unfolded mk_anomaly_def] cw(3) False
  show ?thesis by (simp only: if_False simp_thms)
qed

theorem check_metric_anomaly_direction_witness:
  "check_metric_anomaly ''battery_soh'' (Num 65) =
     Inr (Some \<lparr>metric = ''battery_soh'', observed = Num 65, threshold = Some 70,
                severity = ''critical'', severity_score = 1.0,
                message = FString (''battery_soh'' @ '' is critically low: '') (Num 65),
                historical_context = None\<rparr>) \<and>
   check_metric_anomaly ''battery_temp'' (Num 42) =
     Inr (Some \<lparr>metric = ''battery_temp'', observed = Num 42, threshold = Some 40,
                severity = ''warning'', severity_score = 0.6,
                message = FString (''battery_temp'' @ '' is above normal: '') (Num 42),
                historical_context = None\<rparr>)"
proof -
  have h1: "thresholds_get (''battery_soh'' @ ''_critical'') = Some 70"
    and h2: "thresholds_get (''battery_soh'' @ ''_warning'') = Some 80"
    and h3: "thresholds_get (''battery_temp'' @ ''_critical'') = Some 45"
    and h4: "thresholds_get (''battery_temp'' @ ''_warning'') = Some 40"
    by (simp_all add: threshold_values)
  have l: "''battery_soh'' \<in> set lower_is_worse" "''battery_temp'' \<notin> set lower_is_worse"
    by (simp_all add: lower_is_worse_def)
  have a: "check_metric_anomaly ''battery_soh'' (Num 65) =
     Inr (Some \<lparr>metric = ''battery_soh'', observed = Num 65, threshold = Some 70,
                severity = ''critical'', severity_score = 1.0,
                message = FString (''battery_soh'' @ '' is critically low: '') (Num 65),
                historical_context = None\<rparr>)"
    using check_metric_anomaly_direction[OF h1 h2, of 65] l(1) by simp
  have b: "check_metric_anomaly ''battery_temp'' (Num 42) =
     Inr (Some \<lparr>metric = ''battery_temp'', observed = Num 42, threshold = Some 40,
                severity = ''warning'', severity_score = 0.6,
                message = FString (''battery_temp'' @ '' is above normal: '') (Num 42),
                historical_context = None\<rparr>)"
    using check_metric_anomaly_direction[OF h3 h4, of 42] l(2) by simp
  from a b show ?thesis by (rule conjI)
qed

lemma check_unconfigured:
  assumes "thresholds_get (m @ ''_critical'') = None" and "thresholds_get (m @ ''_warning'') = None"
  shows "check_metric_anomaly m v = Inr None"
  using assms by (simp add: check_metric_anomaly_def)

lemma collect_skip:
  assumes "check_metric_anomaly m v = Inr None"
  shows "collect_anomalies (pre @ (m, v) # post) = collect_anomalies (pre @ post)"
proof (induction pre)
  case Nil
  show ?case using assms by simp
next
  case (Cons p pre)
  obtain m' v' where p: "p = (m', v')" by (cases p)
  show ?case using Cons.IH by (simp add: p split: sum.splits option.splits)
qed

text \<open>
  Claim C10, unconfigured metrics are silently safe. For a metric name with neither a
  critical nor a warning entry in \<open>anomaly_thresholds\<close>, \<open>_check_metric_anomaly\<close> returns
  \<open>None\<close> for every value, numeric or not, and an entry for such a metric anywhere in the
  telemetry does not change what \<open>_detect_anomalies\<close> returns: it adds no anomaly, does not
  change the severity and raises nothing.
\<close>

theorem unconfigured_metric_is_ignored:
  assumes "thresholds_get (m @ ''_critical'') = None" and "thresholds_get (m @ ''_warning'') = None"
  shows "check_metric_anomaly m v = Inr None \<and>
         detect_anomalies now \<lparr>telemetry = pre @ (m, v) # post, vehicle_id = vid\<rparr> =
         detect_anomalies now \<lparr>telemetry = pre @ post, vehicle_id = vid\<rparr>"
proof -
  have a: "check_metric_anomaly m v = Inr None" by (rule check_unconfigured[OF assms])
  have b: "collect_anomalies (pre @ (m, v) # post) = collect_anomalies (pre @ post)"
    by (rule collect_skip[OF a])
  have c: "detect_anomalies now \<lparr>telemetry = pre @ (m, v) # post, vehicle_id = vid\<rparr> =
         detect_anomalies now \<lparr>telemetry = pre @ post, vehicle_id = vid\<rparr>"
    by (simp add: detect_anomalies_def b split: sum.splits)
  from a c show ?thesis by (rule conjI)
qed

theorem unconfigured_metric_is_ignored_witness:
  "check_metric_anomaly ''battery_soc'' NonNum = Inr None \<and>
   detect_anomalies 0 \<lparr>telemetry = [(''battery_soh'', Num 65)] @ (''battery_soc'', NonNum) # [], vehicle_id = Some 1\<rparr> =
   detect_anomalies 0 \<lparr>telemetry = [(''battery_soh'', Num 65)] @ [], vehicle_id = Some 1\<rparr>"
proof -
  have h1: "thresholds_get (''battery_soc'' @ ''_critical'') = None"
    and h2: "thresholds_get (''battery_soc'' @ ''_warning'') = None"
    by (simp_all add: thresholds_get_def anomaly_thresholds_def)
  show ?thesis by (rule unconfigured_metric_is_ignored[OF h1 h2])
qed

lemma py_max_Max: "xs \<noteq> [] \<Longrightarrow> py_max xs = Max (set xs)"
  by (induction xs rule: py_max.induct) simp_all

lemma add_context_scores: "map severity_score (add_context vid as) = map severity_score as"
  by (simp add: add_context_def split: option.splits)

lemma add_context_severity: "map severity (add_context vid as) = map severity as"
  by (simp add: add_context_def split: option.splits)

lemma add_context_metric: "map metric (add_context vid as) = map metric as"
  by (simp add: add_context_def split: option.splits)

lemma add_context_Nil: "(add_context vid as = []) = (as = [])"
  by (simp add: add_context_def split: option.splits)

lemma detect_anomalies_Inr:
  assumes "detect_anomalies now d = Inr r"
  shows "\<exists>found. collect_anomalies (telemetry d) = Inr found \<and>
           anomalies r = add_context (vehicle_id d) found \<and>
           anomalies_detected r = length (anomalies r) \<and>
           overall_severity r = (if found = [] then 0 else py_max (map severity_score found)) \<and>
           requires_immediate_attention r = (overall_severity r \<ge> 0.8)"
proof (cases "collect_anomalies (telemetry d)")
  case (Inl e)
  with assms show ?thesis by (simp add: detect_anomalies_def)
next
  case (Inr found)
  have r: "r = projr (detect_anomalies now d)" using assms by simp
  have "anomalies r = add_context (vehicle_id d) found"
    by (simp add: r detect_anomalies_def Inr Let_def)
  moreover have "anomalies_detected r = length (anomalies r)"
    by (simp add: r detect_anomalies_def Inr Let_def)
  moreover have "overall_severity r = (if found = [] then 0 else py_max (map severity_score found))"
    by (simp add: r detect_anomalies_def Inr Let_def)
  moreover have "requires_immediate_attention r = (overall_severity r \<ge> 0.8)"
    by (simp add: r detect_anomalies_def Inr Let_def)
  ultimately show ?thesis using Inr by simp
qed

lemma scenario_collect:
  "collect_anomalies [(''battery_soh'', Num 65), (''battery_temp'', Num 47)] =
     Inr [mk_anomaly ''battery_soh'' (Num 65) (Some 70) ''critical'' 1.0 '' is critically low: '',
          mk_anomaly ''battery_temp'' (Num 47) (Some 45) ''critical'' 1.0 '' is critically high: '']"
proof -
  have h1: "thresholds_get (''battery_soh'' @ ''_critical'') = Some 70"
    and h2: "thresholds_get (''battery_soh'' @ ''_warning'') = Some 80"
    and h3: "thresholds_get (''battery_temp'' @ ''_critical'') = Some 45"
    and h4: "thresholds_get (''battery_temp'' @ ''_warning'') = Some 40"
    by (simp_all add: threshold_values)
  have l: "''battery_soh'' \<in> set lower_is_worse" "''battery_temp'' \<notin> set lower_is_worse"
    by (simp_all add: lower_is_worse_def)
  have a: "check_metric_anomaly ''battery_soh'' (Num 65) =
     Inr (Some (mk_anomaly ''battery_soh'' (Num 65) (Some 70) ''critical'' 1.0 '' is critically low: ''))"
    using check_lower_eq[OF l(1) h1 h2, of 65] by simp
  have b: "check_metric_anomaly ''battery_temp'' (Num 47) =
     Inr (Some (mk_anomaly ''battery_temp'' (Num 47) (Some 45) ''critical'' 1.0 '' is critically high: ''))"
    using check_higher_eq[OF l(2) h3 h4, of 47] by simp
  show ?thesis by (simp add: a b)
qed

lemma add_context_length: "length (add_context vid as) = length as"
  by (simp add: add_context_def split: option.splits)

text \<open>
  Claim C5, overall severity. Whenever \<open>_detect_anomalies\<close> returns, its
  \<open>overall_severity\<close> is the maximum of the severity scores of the anomalies it reports, or
  0.0 when it reports none, and \<open>requires_immediate_attention\<close> is true exactly when the
  overall severity is at least 0.8. For the reading \<open>{battery_soh: 65.0, battery_temp: 47.0}\<close>
  it returns exactly two anomalies, both critical, and the overall severity 1.0.
\<close>

theorem detect_anomalies_overall_severity:
  assumes "detect_anomalies now d = Inr r"
  shows "overall_severity r = (if anomalies r = [] then 0 else Max (set (map severity_score (anomalies r)))) \<and>
         requires_immediate_attention r = (overall_severity r \<ge> 0.8) \<and>
         (case detect_anomalies now \<lparr>telemetry = [(''battery_soh'', Num 65), (''battery_temp'', Num 47)],
                                      vehicle_id = vid\<rparr> of
            Inl e \<Rightarrow> False
          | Inr s \<Rightarrow> map metric (anomalies s) = [''battery_soh'', ''battery_temp''] \<and>
                     map severity (anomalies s) = [''critical'', ''critical''] \<and>
                     anomalies_detected s = 2 \<and> overall_severity s = 1.0)"
proof -
  from detect_anomalies_Inr[OF assms] obtain found where
    f: "anomalies r = add_context (vehicle_id d) found"
       "overall_severity r = (if found = [] then 0 else py_max (map severity_score found))"
       "requires_immediate_attention r = (overall_severity r \<ge> 0.8)"
    by blast
  have e: "(anomalies r = []) = (found = [])" by (simp add: f(1) add_context_Nil)
  have m: "map severity_score (anomalies r) = map severity_score found"
    by (simp add: f(1) add_context_scores)
  have a: "overall_severity r = (if anomalies r = [] then 0 else Max (set (map severity_score (anomalies r))))"
  proof (cases "found = []")
    case True
    then show ?thesis by (simp add: f(2) e)
  next
    case False
    then have "py_max (map severity_score found) = Max (set (map severity_score found))"
      by (intro py_max_Max) simp
    with False show ?thesis by (simp only: f(2) e m if_False)
  qed
  have c: "(case detect_anomalies now \<lparr>telemetry = [(''battery_soh'', Num 65), (''battery_temp'', Num 47)],
                                      vehicle_id = vid\<rparr> of
            Inl e \<Rightarrow> False
          | Inr s \<Rightarrow> map metric (anomalies s) = [''battery_soh'', ''battery_temp''] \<and>
                     map severity (anomalies s) = [''critical'', ''critical''] \<and>
                     anomalies_detected s = 2 \<and> overall_severity s = 1.0)"
    by (simp add: detect_anomalies_def scenario_collect Let_def add_context_metric add_context_severity
          add_context_Nil add_context_length mk_anomaly_def del: collect_anomalies.simps)
  from a f(3) c show ?thesis by (intro conjI)
qed

theorem detect_anomalies_overall_severity_witness:
  "detect_anomalies 0 \<lparr>telemetry = [(''coolant_level'', VNone)], vehicle_id = None\<rparr> =
     Inr \<lparr>res_vehicle_id = None, anomalies_detected = 0, anomalies = [], overall_severity = 0,
          requires_immediate_attention = False, confidence = 0.7, timestamp = 0\<rparr> \<and>
   (case detect_anomalies 0 \<lparr>telemetry = [(''battery_soh'', Num 65), (''battery_temp'', Num 47)],
                              vehicle_id = Some 3\<rparr> of
      Inl e \<Rightarrow> False
    | Inr s \<Rightarrow> map metric (anomalies s) = [''battery_soh'', ''battery_temp''] \<and>
               map severity (anomalies s) = [''critical'', ''critical''] \<and>
               anomalies_detected s = 2 \<and> overall_severity s = 1.0)"
proof -
  have h: "detect_anomalies 0 \<lparr>telemetry = [(''coolant_level'', VNone)], vehicle_id = None\<rparr> =
     Inr \<lparr>res_vehicle_id = None, anomalies_detected = 0, anomalies = [], overall_severity = 0,
          requires_immediate_attention = False, confidence = 0.7, timestamp = 0\<rparr>"
    by (simp add: detect_anomalies_def add_context_def)
  from detect_anomalies_overall_severity[OF h, of "Some 3"] h show ?thesis
    by (intro conjI) (simp_all only: simp_thms)
qed

text \<open>
  Claim C9, analyzer determinism, as amended. The result of \<open>_detect_anomalies\<close> carries a
  \<open>timestamp\<close> read from the wall clock, so two invocations on the same data at different
  instants return different dictionaries (\<open>detect_anomalies_clock_counterexample\<close>). Everything
  else is determined by the data: the result at one instant is the result at any other
  instant with the \<open>timestamp\<close> replaced, and an exception does not depend on the clock at all.
\<close>

theorem detect_anomalies_clock:
  "detect_anomalies now1 d = map_sum id (\<lambda>r. r\<lparr>timestamp := now1\<rparr>) (detect_anomalies now2 d)"
  by (cases "collect_anomalies (telemetry d)") (simp_all add: detect_anomalies_def Let_def)

theorem detect_anomalies_clock_counterexample:
  "detect_anomalies 0 \<lparr>telemetry = [(''battery_soh'', Num 65)], vehicle_id = Some 1\<rparr> \<noteq>
   detect_anomalies 1 \<lparr>telemetry = [(''battery_soh'', Num 65)], vehicle_id = Some 1\<rparr>"
proof -
  have h1: "thresholds_get (''battery_soh'' @ ''_critical'') = Some 70"
    and h2: "thresholds_get (''battery_soh'' @ ''_warning'') = Some 80"
    by (simp_all add: threshold_values)
  have l: "''battery_soh'' \<in> set lower_is_worse" by (simp add: lower_is_worse_def)
  have a: "check_metric_anomaly ''battery_soh'' (Num 65) =
     Inr (Some (mk_anomaly ''battery_soh'' (Num 65) (Some 70) ''critical'' 1.0 '' is critically low: ''))"
    using check_lower_eq[OF l h1 h2, of 65] by simp
  show ?thesis by (simp add: detect_anomalies_def a Let_def)
qed

lemma sum_index: "sum_list (map real [0..<n]) = real n * (real n - 1) / 2"
  by (induction n) (simp_all add: field_simps)

lemma sum_index_sq: "sum_list (map (\<lambda>x. x * x) (map real [0..<n])) = (real n - 1) * real n * (2 * real n - 1) / 6"
  by (induction n) (simp_all add: field_simps)

lemma sum_linear: "sum_list (map (\<lambda>i. a + d * real i) [0..<n]) = real n * a + d * sum_list (map real [0..<n])"
  by (induction n) (simp_all add: algebra_simps)

lemma sum_index_linear:
  "sum_list (map2 (*) (map real [0..<n]) (map (\<lambda>i. a + d * real i) [0..<n])) =
     a * sum_list (map real [0..<n]) + d * sum_list (map (\<lambda>x. x * x) (map real [0..<n]))"
  by (induction n) (simp_all add: algebra_simps)

lemma denominator_pos:
  assumes "2 \<le> n"
  shows "real n * sum_list (map (\<lambda>x. x * x) (map real [0..<n])) -
         sum_list (map real [0..<n]) * sum_list (map real [0..<n]) > 0"
proof -
  have "real n * ((real n - 1) * real n * (2 * real n - 1) / 6) -
        (real n * (real n - 1) / 2) * (real n * (real n - 1) / 2) =
        real n * real n * (real n - 1) * (real n + 1) / 12"
    by (simp add: field_simps)
  moreover have "real n * real n * (real n - 1) * (real n + 1) / 12 > 0"
    using assms by simp
  ultimately show ?thesis by (simp only: sum_index sum_index_sq)
qed

lemma slope_linear:
  assumes "2 \<le> n"
  shows "fst (polyfit1 (map real [0..<n]) (map (\<lambda>i. a + d * real i) [0..<n])) = d"
proof -
  define S1 where "S1 = sum_list (map real [0..<n])"
  define S2 where "S2 = sum_list (map (\<lambda>x. x * x) (map real [0..<n]))"
  have pos: "real n * S2 - S1 * S1 > 0"
    unfolding S1_def S2_def by (rule denominator_pos[OF assms])
  have "fst (polyfit1 (map real [0..<n]) (map (\<lambda>i. a + d * real i) [0..<n])) =
        (real n * (a * S1 + d * S2) - S1 * (real n * a + d * S1)) / (real n * S2 - S1 * S1)"
    by (simp add: polyfit1_def Let_def sum_linear sum_index_linear S1_def S2_def)
  also have "real n * (a * S1 + d * S2) - S1 * (real n * a + d * S1) = d * (real n * S2 - S1 * S1)"
    by (simp add: algebra_simps)
  also have "d * (real n * S2 - S1 * S1) / (real n * S2 - S1 * S1) = d"
    using pos by simp
  finally show ?thesis .
qed

lemma direction_by_slope:
  assumes "2 \<le> length vs"
  shows "direction (calculate_trend pf vs) =
           (if \<bar>fst (pf (map real [0..<length vs]) vs)\<bar> < 0.1 then ''stable''
            else if fst (pf (map real [0..<length vs]) vs) > 0 then ''improving''
            else ''declining'')"
  using assms by (simp add: calculate_trend_def Let_def)

lemma direction_linear:
  assumes "2 \<le> n"
  shows "direction (calculate_trend polyfit1 (map (\<lambda>i. a + d * real i) [0..<n])) =
           (if \<bar>d\<bar> < 0.1 then ''stable'' else if d > 0 then ''improving'' else ''declining'')"
proof -
  have l: "2 \<le> length (map (\<lambda>i. a + d * real i) [0..<n])" using assms by simp
  show ?thesis
    by (simp only: direction_by_slope[OF l] length_map length_upt diff_zero slope_linear[OF assms])
qed

text \<open>
  Claim C8, trend sign convention, as amended. For every series of at least two values, in
  the order in which \<open>_calculate_trend\<close> receives them, the direction is \<open>stable\<close> exactly
  when the slope that \<open>np.polyfit\<close> returns has absolute value below 0.1, \<open>improving\<close>
  exactly when that slope is at least 0.1 and \<open>declining\<close> exactly when it is at most -0.1.
  The least-squares slope of a linear series with step \<open>d\<close> from one position to the next
  is \<open>d\<close>; so when the returned slope is within \<open>e\<close> of it, the direction is \<open>improving\<close>
  for \<open>d \<ge> 0.1 + e\<close>, \<open>declining\<close> for \<open>d \<le> -0.1 - e\<close>, and \<open>stable\<close> for
  \<open>\<bar>d\<bar> + e < 0.1\<close>, also when the series is strictly increasing or decreasing.
\<close>

theorem calculate_trend_direction:
  assumes "2 \<le> length vs"
  shows "(direction (calculate_trend pf vs) = ''stable'') =
           (\<bar>fst (pf (map real [0..<length vs]) vs)\<bar> < 0.1) \<and>
         (direction (calculate_trend pf vs) = ''improving'') =
           (fst (pf (map real [0..<length vs]) vs) \<ge> 0.1) \<and>
         (direction (calculate_trend pf vs) = ''declining'') =
           (fst (pf (map real [0..<length vs]) vs) \<le> - 0.1) \<and>
         (vs = map (\<lambda>i. a + d * real i) [0..<length vs] \<longrightarrow>
            fst (polyfit1 (map real [0..<length vs]) vs) = d) \<and>
         (\<bar>fst (pf (map real [0..<length vs]) vs) - d\<bar> \<le> e \<longrightarrow>
            (d \<ge> 0.1 + e \<longrightarrow> direction (calculate_trend pf vs) = ''improving'') \<and>
            (d \<le> - 0.1 - e \<longrightarrow> direction (calculate_trend pf vs) = ''declining'') \<and>
            (\<bar>d\<bar> + e < 0.1 \<longrightarrow> direction (calculate_trend pf vs) = ''stable''))"
proof -
  define sl where "sl = fst (pf (map real [0..<length vs]) vs)"
  have dir: "direction (calculate_trend pf vs) =
           (if \<bar>sl\<bar> < 0.1 then ''stable'' else if sl > 0 then ''improving'' else ''declining'')"
    unfolding sl_def by (rule direction_by_slope[OF assms])
  have d1: "(direction (calculate_trend pf vs) = ''stable'') = (\<bar>sl\<bar> < 0.1)"
    by (simp add: dir)
  have d2: "(direction (calculate_trend pf vs) = ''improving'') = (sl \<ge> 0.1)"
    by (auto simp: dir)
  have d3: "(direction (calculate_trend pf vs) = ''declining'') = (sl \<le> - 0.1)"
    by (auto simp: dir)
  have l: "vs = map (\<lambda>i. a + d * real i) [0..<length vs] \<longrightarrow>
            fst (polyfit1 (map real [0..<length vs]) vs) = d"
  proof
    assume v: "vs = map (\<lambda>i. a + d * real i) [0..<length vs]"
    show "fst (polyfit1 (map real [0..<length vs]) vs) = d"
      using slope_linear[OF assms, of a d] v by simp
  qed
  have t: "\<bar>sl - d\<bar> \<le> e \<longrightarrow>
            (d \<ge> 0.1 + e \<longrightarrow> direction (calculate_trend pf vs) = ''improving'') \<and>
            (d \<le> - 0.1 - e \<longrightarrow> direction (calculate_trend pf vs) = ''declining'') \<and>
            (\<bar>d\<bar> + e < 0.1 \<longrightarrow> direction (calculate_trend pf vs) = ''stable'')"
    unfolding d1 d2 d3 by auto
  from d1 d2 d3 l t show ?thesis unfolding sl_def by (intro conjI)
qed

lemma upt_3: "[0..<3] = [0, 1, 2]"
  by (simp add: numeral_3_eq_3)

theorem calculate_trend_direction_witness:
  "fst (polyfit1 (map real [0..<length [70, 75, 80 :: real]]) [70, 75, 80]) = 5 \<and>
   direction (calculate_trend polyfit1 [70, 75, 80]) = ''improving'' \<and>
   direction (calculate_trend polyfit1 [80, 75, 70]) = ''declining''"
proof -
  have a: "[70, 75, 80] = map (\<lambda>i. 70 + 5 * real i) [0..<length [70, 75, 80 :: real]]"
    by (simp add: upt_3)
  have b: "[80, 75, 70] = map (\<lambda>i. 80 + (- 5) * real i) [0..<length [80, 75, 70 :: real]]"
    by (simp add: upt_3)
  have l: "2 \<le> length [70, 75, 80 :: real]" "2 \<le> length [80, 75, 70 :: real]" by simp_all
  have s1: "fst (polyfit1 (map real [0..<length [70, 75, 80 :: real]]) [70, 75, 80]) = 5"
    using calculate_trend_direction[OF l(1), of polyfit1 70 5 0] a by blast
  have s2: "fst (polyfit1 (map real [0..<length [80, 75, 70 :: real]]) [80, 75, 70]) = - 5"
    using calculate_trend_direction[OF l(2), of polyfit1 80 "- 5" 0] b by blast
  have "direction (calculate_trend polyfit1 [70, 75, 80]) = ''improving''"
    using calculate_trend_direction[OF l(1), of polyfit1 70 5 0] s1 by simp
  moreover have "direction (calculate_trend polyfit1 [80, 75, 70]) = ''declining''"
    using calculate_trend_direction[OF l(2), of polyfit1 80 "- 5" 0] s2 by simp
  ultimately show ?thesis using s1 by (intro conjI)
qed

theorem calculate_trend_direction_counterexample:
  "sorted_wrt (<) [80, 80.05, 80.1 :: real] \<and>
   [80, 80.05, 80.1] = map (\<lambda>i. 80 + 0.05 * real i) [0..<3] \<and>
   fst (polyfit1 (map real [0..<3]) [80, 80.05, 80.1]) = 0.05 \<and>
   direction (calculate_trend polyfit1 [80, 80.05, 80.1]) = ''stable'' \<and>
   direction (calculate_trend polyfit1 [80, 80.05, 80.1]) \<noteq> ''improving''"
proof -
  have a: "[80, 80.05, 80.1] = map (\<lambda>i. 80 + 0.05 * real i) [0..<3]"
    by (simp add: upt_3)
  have "fst (polyfit1 (map real [0..<3]) (map (\<lambda>i. 80 + 0.05 * real i) [0..<3])) = 0.05"
    by (rule slope_linear) simp
  then have f: "fst (polyfit1 (map real [0..<3]) [80, 80.05, 80.1]) = 0.05"
    by (simp only: a)
  have "direction (calculate_trend polyfit1 (map (\<lambda>i. 80 + 0.05 * real i) [0..<3])) = ''stable''"
    using direction_linear[of 3 80 "0.05"] by simp
  then have s: "direction (calculate_trend polyfit1 [80, 80.05, 80.1]) = ''stable''"
    by (simp only: a)
  have srt: "sorted_wrt (<) [80, 80.05, 80.1 :: real]" by simp
  have ne: "direction (calculate_trend polyfit1 [80, 80.05, 80.1]) \<noteq> ''improving''"
    using s by simp
  from srt a f s ne show ?thesis by (intro conjI)
qed

text \<open>
  The history reaches \<open>_calculate_trend\<close> newest first, because
  \<open>_get_historical_telemetry\<close> orders by descending timestamp: a state of health that
  rises from 70 to 80 over three readings is passed as 80, 75, 70.
\<close>

lemma analyze_trends_newest_first:
  "analyze_trends pf 3
     [\<lparr>row_vehicle_id = 1, row_timestamp = 1, battery_soh = Some 70\<rparr>,
      \<lparr>row_vehicle_id = 1, row_timestamp = 2, battery_soh = Some 75\<rparr>,
      \<lparr>row_vehicle_id = 1, row_timestamp = 3, battery_soh = Some 80\<rparr>] 1 =
   Trends [(''battery_soh'', calculate_trend pf [80, 75, 70])]"
  by (simp add: analyze_trends_def get_historical_telemetry_def us_per_day_def Let_def)

declare scan_day.simps [simp del]




lemma candidate_Some:
  assumes "candidate clk table md st i w = Inr (Some (sc, s))"
  shows "\<exists>r. find_next_available_slot (clk i 0) (clk i 1) table (workshop_id w) st = Some (slot_time s) \<and>
             rating w = Some r \<and>
             sc = real_of_int (slot_time s - clk i 2) / 1000000 / 3600 - r * 10 \<and>
             real_of_int (slot_time s - clk i 2) / 1000000 / 3600 \<le> real_of_int md \<and>
             slot_workshop_id s = workshop_id w \<and>
             slot_estimated_duration s = estimate_service_duration st"
  using assms
  by (auto simp: candidate_def Let_def split: option.splits if_splits)

lemma feasible_pairs_nth:
  "c \<in> set (feasible_pairs clk table md st i ws) \<Longrightarrow>
     \<exists>j<length ws. candidate clk table md st (i + j) (ws ! j) = Inr (Some c)"
proof (induction ws arbitrary: i)
  case Nil
  then show ?case by simp
next
  case (Cons w ws)
  show ?case
  proof (cases "candidate clk table md st i w = Inr (Some c)")
    case True
    then have "candidate clk table md st (i + 0) ((w # ws) ! 0) = Inr (Some c)" by simp
    then show ?thesis by (intro exI[of _ 0]) simp
  next
    case False
    with Cons.prems have "c \<in> set (feasible_pairs clk table md st (Suc i) ws)"
      by (auto split: sum.splits option.splits)
    from Cons.IH[OF this] obtain j where "j < length ws"
      "candidate clk table md st (Suc i + j) (ws ! j) = Inr (Some c)" by blast
    then have "Suc j < length (w # ws) \<and> candidate clk table md st (i + Suc j) ((w # ws) ! Suc j) = Inr (Some c)"
      by simp
    then show ?thesis by blast
  qed
qed

lemma first_minimal_drop_head:
  assumes "fst c < fst b"
  shows "first_minimal (b # c # rest) = first_minimal (c # rest)"
proof -
  have e: "\<And>x. (fst x \<le> fst b \<and> fst x \<le> fst c \<and> list_all (\<lambda>c'. fst x \<le> fst c') rest) =
             (fst x \<le> fst c \<and> list_all (\<lambda>c'. fst x \<le> fst c') rest)"
    using assms by auto
  from assms show ?thesis
    by (simp add: first_minimal_def e)
qed

lemma first_minimal_drop_second:
  assumes "fst b \<le> fst c"
  shows "first_minimal (b # c # rest) = first_minimal (b # rest)"
proof -
  have e: "\<And>x. (fst x \<le> fst b \<and> fst x \<le> fst c \<and> list_all (\<lambda>c'. fst x \<le> fst c') rest) =
             (fst x \<le> fst b \<and> list_all (\<lambda>c'. fst x \<le> fst c') rest)"
    using assms by auto
  have n: "\<not> list_all (\<lambda>c'. fst b \<le> fst c') rest \<Longrightarrow>
           \<not> (fst c \<le> fst b \<and> list_all (\<lambda>c'. fst c \<le> fst c') rest)"
    using assms by (auto simp: list_all_iff)
  show ?thesis using assms n
    by (auto simp add: first_minimal_def e)
qed

lemma first_minimal_single: "first_minimal [c] = Some c"
  by (simp add: first_minimal_def)

lemma optimal_loop_first_minimal:
  "optimal_loop clk table md st i ws best = Inr r \<Longrightarrow>
     r = first_minimal ((case best of None \<Rightarrow> [] | Some c \<Rightarrow> [c]) @ feasible_pairs clk table md st i ws)"
proof (induction ws arbitrary: i best)
  case Nil
  then have r: "r = best" by simp
  show ?case by (cases best) (simp_all add: r first_minimal_def)
next
  case (Cons w ws)
  show ?case
  proof (cases "candidate clk table md st i w")
    case (Inl e)
    with Cons.prems show ?thesis by simp
  next
    case (Inr oc)
    show ?thesis
    proof (cases oc)
      case None
      with Inr Cons.prems have "optimal_loop clk table md st (Suc i) ws best = Inr r" by simp
      from Cons.IH[OF this] show ?thesis using Inr None by simp
    next
      case (Some c)
      obtain sc s where c: "c = (sc, s)" by (cases c)
      show ?thesis
      proof (cases "improves sc best")
        case True
        with Inr Some c Cons.prems have "optimal_loop clk table md st (Suc i) ws (Some (sc, s)) = Inr r"
          by simp
        from Cons.IH[OF this]
        have r: "r = first_minimal ((sc, s) # feasible_pairs clk table md st (Suc i) ws)" by simp
        show ?thesis
        proof (cases best)
          case None
          then show ?thesis using r Inr Some c by simp
        next
          case (Some bb)
          obtain bsc bs where b: "bb = (bsc, bs)" by (cases bb)
          from True Some b have "sc < bsc" by simp
          then have "first_minimal (bb # (sc, s) # feasible_pairs clk table md st (Suc i) ws) =
                     first_minimal ((sc, s) # feasible_pairs clk table md st (Suc i) ws)"
            by (intro first_minimal_drop_head) (simp add: b)
          then show ?thesis using r Inr \<open>oc = Some c\<close> c Some by simp
        qed
      next
        case False
        then obtain bsc bs where b: "best = Some (bsc, bs)" and le: "bsc \<le> sc"
          by (cases best) auto
        from False Inr Some c Cons.prems have "optimal_loop clk table md st (Suc i) ws best = Inr r"
          by simp
        from Cons.IH[OF this] b
        have r: "r = first_minimal ((bsc, bs) # feasible_pairs clk table md st (Suc i) ws)" by simp
        from le have "first_minimal ((bsc, bs) # (sc, s) # feasible_pairs clk table md st (Suc i) ws) =
                     first_minimal ((bsc, bs) # feasible_pairs clk table md st (Suc i) ws)"
          by (intro first_minimal_drop_second) simp
        then show ?thesis using r Inr Some c b by simp
      qed
    qed
  qed
qed

lemma first_minimal_mem: "first_minimal cs = Some c \<Longrightarrow> c \<in> set cs"
  by (auto simp: first_minimal_def find_Some_iff)

lemma optimal_loop_none:
  assumes "\<forall>j<length ws. candidate clk table md st (i + j) (ws ! j) = Inr None"
  shows "optimal_loop clk table md st i ws best = Inr best"
  using assms
proof (induction ws arbitrary: i)
  case Nil
  then show ?case by simp
next
  case (Cons w ws)
  from Cons.prems have h: "candidate clk table md st i w = Inr None" by fastforce
  have "\<forall>j<length ws. candidate clk table md st (Suc i + j) (ws ! j) = Inr None"
  proof (intro allI impI)
    fix j assume "j < length ws"
    with Cons.prems have "candidate clk table md st (i + Suc j) ((w # ws) ! Suc j) = Inr None"
      by (metis Suc_less_eq length_Cons)
    then show "candidate clk table md st (Suc i + j) (ws ! j) = Inr None" by simp
  qed
  from Cons.IH[OF this] h show ?case by simp
qed

lemma delay_conv:
  "(real_of_int x / 1000000 / 3600 > real_of_int m) = (x > m * us_per_hour)"
proof -
  have "(real_of_int x / 1000000 / 3600 > real_of_int m) = (real_of_int (m * 3600000000) < real_of_int x)"
    by (simp add: field_simps)
  also have "\<dots> = (m * 3600000000 < x)" by (simp only: of_int_less_iff)
  finally show ?thesis by (simp add: us_per_hour_def)
qed

lemma candidate_None:
  assumes "\<forall>t. find_next_available_slot (clk i 0) (clk i 1) table (workshop_id w) st = Some t \<longrightarrow>
               t - clk i 2 > md * us_per_hour"
  shows "candidate clk table md st i w = Inr None"
proof (cases "find_next_available_slot (clk i 0) (clk i 1) table (workshop_id w) st")
  case None
  then show ?thesis by (simp add: candidate_def)
next
  case (Some t)
  with assms have "t - clk i 2 > md * us_per_hour" by simp
  then have d: "real_of_int (t - clk i 2) / 1000000 / 3600 > real_of_int md"
    by (simp only: delay_conv)
  show ?thesis unfolding candidate_def Let_def Some option.case if_P[OF d] by (rule refl)
qed

lemma max_delay_values:
  "max_delay_hours ''critical'' = 24" "max_delay_hours ''high'' = 72"
  "max_delay_hours ''normal'' = 168" "max_delay_hours ''low'' = 336"
  by (simp_all add: max_delay_hours_def booking_priorities_def)

lemma find_optimal_slot_Some:
  assumes "find_optimal_slot clk table ws p st = Inr (Some s)"
  shows "\<exists>i<length ws. \<exists>sc. candidate clk table (max_delay_hours p) st i (ws ! i) = Inr (Some (sc, s))"
proof -
  from assms obtain best where l: "optimal_loop clk table (max_delay_hours p) st 0 ws None = Inr best"
    and b: "map_option snd best = Some s"
    by (auto simp: find_optimal_slot_def split: sum.splits)
  from b obtain sc where best: "best = Some (sc, s)" by (cases best) auto
  from optimal_loop_first_minimal[OF l] best
  have "first_minimal (feasible_pairs clk table (max_delay_hours p) st 0 ws) = Some (sc, s)" by simp
  then have "(sc, s) \<in> set (feasible_pairs clk table (max_delay_hours p) st 0 ws)"
    by (rule first_minimal_mem)
  from feasible_pairs_nth[OF this] show ?thesis by auto
qed

lemma first_minimal_Some:
  assumes "first_minimal cs = Some c"
  shows "c \<in> set cs \<and> (\<forall>c'\<in>set cs. fst c \<le> fst c')"
  using assms by (auto simp: first_minimal_def find_Some_iff list_all_iff)

lemma first_minimal_None: "(first_minimal cs = None) = (cs = [])"
proof
  assume n: "first_minimal cs = None"
  show "cs = []"
  proof (rule ccontr)
    assume ne: "cs \<noteq> []"
    then have "Min (fst ` set cs) \<in> fst ` set cs" by (intro Min_in) simp_all
    then obtain c where c: "c \<in> set cs" "fst c = Min (fst ` set cs)" by auto
    have la: "list_all (\<lambda>c'. fst c \<le> fst c') cs" using c(2) by (simp add: list_all_iff)
    from n have "\<forall>x\<in>set cs. \<not> list_all (\<lambda>c'. fst x \<le> fst c') cs"
      by (auto simp: first_minimal_def find_None_iff)
    with c(1) la show False by blast
  qed
next
  assume "cs = []"
  then show "first_minimal cs = None" by (simp add: first_minimal_def)
qed

lemma find_optimal_slot_eq:
  assumes "find_optimal_slot clk table ws p st = Inr r"
  shows "r = map_option snd (first_minimal (feasible_pairs clk table (max_delay_hours p) st 0 ws))"
proof -
  from assms obtain best where l: "optimal_loop clk table (max_delay_hours p) st 0 ws None = Inr best"
    and b: "r = map_option snd best"
    by (auto simp: find_optimal_slot_def split: sum.splits)
  from optimal_loop_first_minimal[OF l] b show ?thesis by simp
qed

lemma slot_at_midnight: "find_next_available_slot 0 0 [] wid st = Some 28800000000"
  by (simp add: find_next_available_slot_def existing_bookings_def minute_of_def us_per_hour_def
        us_per_day_def us_per_minute_def replace_hour_def Let_def scan_day.simps upt_rec[of 0])

lemma bound_conv:
  "(real_of_int x / 1000000 / 3600 \<le> real_of_int m) = (x \<le> m * us_per_hour)"
  using delay_conv[of m x] by auto

lemma schedule_booking_Scheduled:
  assumes "schedule_booking contains clk now req db = (Inr (Scheduled info), db')"
  shows "\<exists>os. find_optimal_slot clk (bookings db) (find_suitable_workshops contains db (req_service_type req))
                 (req_priority req) (req_service_type req) = Inr (Some os) \<and>
              info = booking_info_of req os (fresh_booking_id (bookings db)) now \<and>
              db' = db\<lparr>bookings := bookings db @ [new_booking req os (fresh_booking_id (bookings db))]\<rparr>"
  using assms
  by (auto simp: schedule_booking_def Let_def new_booking_def split: if_splits sum.splits option.splits)


text \<open>
  Claim C3, the priority delay bound. A slot returned by \<open>_find_optimal_slot\<close> is the next
  available slot of one of the workshops, and its delay, measured from the clock reading
  taken for that workshop, is at most the maximum delay of the priority: 24 hours for
  critical, 72 for high, 168 for normal, 336 for low. When every workshop has no slot or
  only one beyond the bound, the result is \<open>None\<close>, and \<open>_schedule_booking\<close> then reports
  that no slot is available and leaves the store as it is; a booking it does create starts
  within the bound.
\<close>

theorem find_optimal_slot_delay_bound:
  "(find_optimal_slot clk table ws p st = Inr (Some s) \<longrightarrow>
      (\<exists>i<length ws. slot_workshop_id s = workshop_id (ws ! i) \<and>
          find_next_available_slot (clk i 0) (clk i 1) table (workshop_id (ws ! i)) st = Some (slot_time s) \<and>
          slot_time s - clk i 2 \<le> max_delay_hours p * us_per_hour)) \<and>
   ((\<forall>i<length ws. \<forall>t. find_next_available_slot (clk i 0) (clk i 1) table (workshop_id (ws ! i)) st = Some t
          \<longrightarrow> t - clk i 2 > max_delay_hours p * us_per_hour) \<longrightarrow>
      find_optimal_slot clk table ws p st = Inr None) \<and>
   (schedule_booking contains clk now req db = (Inr (Scheduled info), db') \<longrightarrow>
      (\<exists>i. info_booking_slot info - clk i 2 \<le> max_delay_hours (req_priority req) * us_per_hour)) \<and>
   (req_vehicle_id req \<in> set (vehicles db) \<and>
    find_suitable_workshops contains db (req_service_type req) \<noteq> [] \<and>
    find_optimal_slot clk (bookings db) (find_suitable_workshops contains db (req_service_type req))
      (req_priority req) (req_service_type req) = Inr None \<longrightarrow>
      schedule_booking contains clk now req db =
        (Inr (No_available_slots (length (find_suitable_workshops contains db (req_service_type req)))), db)) \<and>
   max_delay_hours ''critical'' = 24 \<and> max_delay_hours ''high'' = 72 \<and>
   max_delay_hours ''normal'' = 168 \<and> max_delay_hours ''low'' = 336"
proof -
  have a: "\<exists>i<length ws. slot_workshop_id s = workshop_id (ws ! i) \<and>
          find_next_available_slot (clk i 0) (clk i 1) table (workshop_id (ws ! i)) st = Some (slot_time s) \<and>
          slot_time s - clk i 2 \<le> max_delay_hours p * us_per_hour"
    if h: "find_optimal_slot clk table ws p st = Inr (Some s)" for clk table ws p st s
  proof -
    from find_optimal_slot_Some[OF h] obtain i sc where i: "i < length ws"
      and c: "candidate clk table (max_delay_hours p) st i (ws ! i) = Inr (Some (sc, s))" by blast
    from candidate_Some[OF c] have f:
      "find_next_available_slot (clk i 0) (clk i 1) table (workshop_id (ws ! i)) st = Some (slot_time s)"
      and r: "real_of_int (slot_time s - clk i 2) / 1000000 / 3600 \<le> real_of_int (max_delay_hours p)"
      and w: "slot_workshop_id s = workshop_id (ws ! i)"
      by blast+
    from r have "slot_time s - clk i 2 \<le> max_delay_hours p * us_per_hour"
      by (simp only: bound_conv)
    with i f w show ?thesis by blast
  qed
  have b: "find_optimal_slot clk table ws p st = Inr None"
    if h: "\<forall>i<length ws. \<forall>t. find_next_available_slot (clk i 0) (clk i 1) table (workshop_id (ws ! i)) st = Some t
          \<longrightarrow> t - clk i 2 > max_delay_hours p * us_per_hour"
  proof -
    have "\<forall>j<length ws. candidate clk table (max_delay_hours p) st (0 + j) (ws ! j) = Inr None"
      using h by (auto intro: candidate_None)
    from optimal_loop_none[OF this] show ?thesis by (simp add: find_optimal_slot_def)
  qed
  have c: "\<exists>i. info_booking_slot info - clk i 2 \<le> max_delay_hours (req_priority req) * us_per_hour"
    if h: "schedule_booking contains clk now req db = (Inr (Scheduled info), db')"
  proof -
    from schedule_booking_Scheduled[OF h] obtain os where
      f: "find_optimal_slot clk (bookings db) (find_suitable_workshops contains db (req_service_type req))
                 (req_priority req) (req_service_type req) = Inr (Some os)"
      and i: "info = booking_info_of req os (fresh_booking_id (bookings db)) now" by blast
    from a[OF f] obtain k where "slot_time os - clk k 2 \<le> max_delay_hours (req_priority req) * us_per_hour"
      by blast
    then show ?thesis by (auto simp: i booking_info_of_def)
  qed
  have d: "schedule_booking contains clk now req db =
        (Inr (No_available_slots (length (find_suitable_workshops contains db (req_service_type req)))), db)"
    if "req_vehicle_id req \<in> set (vehicles db) \<and>
    find_suitable_workshops contains db (req_service_type req) \<noteq> [] \<and>
    find_optimal_slot clk (bookings db) (find_suitable_workshops contains db (req_service_type req))
      (req_priority req) (req_service_type req) = Inr None"
    using that by (simp add: schedule_booking_def Let_def)
  from a b c d max_delay_values show ?thesis by blast
qed

lemma corrective_duration: "estimate_service_duration ''corrective'' = 180"
  by (simp add: estimate_service_duration_def duration_mapping_def)

lemma candidate_at_midnight:
  assumes "8 \<le> md"
  shows "candidate (\<lambda>i r. 0) [] md ''corrective'' i
     \<lparr>workshop_id = wid, workshop_name = n, location = l, specialties = sp, rating = Some rt\<rparr> =
   Inr (Some (8 - rt * 10,
     \<lparr>slot_workshop_id = wid, slot_workshop_name = n, slot_location = l, slot_time = 28800000000,
      slot_estimated_duration = 180, availability_confidence = 0.8\<rparr>))"
  using assms by (simp add: candidate_def slot_at_midnight corrective_duration Let_def)

theorem find_optimal_slot_delay_bound_witness:
  "find_optimal_slot (\<lambda>i r. 0) []
     [\<lparr>workshop_id = ''WS001'', workshop_name = ''A'', location = ''L'', specialties = [''general''],
       rating = Some 4.5\<rparr>] ''critical'' ''corrective'' =
   Inr (Some \<lparr>slot_workshop_id = ''WS001'', slot_workshop_name = ''A'', slot_location = ''L'',
              slot_time = 28800000000, slot_estimated_duration = 180, availability_confidence = 0.8\<rparr>) \<and>
   (28800000000::int) - 0 \<le> max_delay_hours ''critical'' * us_per_hour \<and>
   find_optimal_slot (\<lambda>i r. 0) [] [] ''critical'' ''corrective'' = Inr None"
proof -
  let ?w = "\<lparr>workshop_id = ''WS001'', workshop_name = ''A'', location = ''L'', specialties = [''general''],
       rating = Some 4.5\<rparr>"
  let ?s = "\<lparr>slot_workshop_id = ''WS001'', slot_workshop_name = ''A'', slot_location = ''L'',
              slot_time = 28800000000, slot_estimated_duration = 180, availability_confidence = 0.8\<rparr>"
  have h: "find_optimal_slot (\<lambda>i r. 0) [] [?w] ''critical'' ''corrective'' = Inr (Some ?s)"
    by (simp add: find_optimal_slot_def max_delay_values candidate_at_midnight)
  note t = find_optimal_slot_delay_bound[where clk = "\<lambda>i r. 0" and table = "[]" and p = "''critical''"
      and st = "''corrective''"]
  from t[where ws = "[?w]", THEN conjunct1, THEN mp, OF h]
  have b: "(28800000000::int) - 0 \<le> max_delay_hours ''critical'' * us_per_hour" by auto
  have e: "\<forall>i<length ([]::workshop list). \<forall>t.
             find_next_available_slot ((\<lambda>i r. 0) i 0) ((\<lambda>i r. 0) i 1) [] (workshop_id ([] ! i)) ''corrective'' = Some t
             \<longrightarrow> t - (\<lambda>i r. 0) i 2 > max_delay_hours ''critical'' * us_per_hour"
    by simp
  from t[where ws = "[]", THEN conjunct2, THEN conjunct1, THEN mp, OF e]
  have n: "find_optimal_slot (\<lambda>i r. 0) [] [] ''critical'' ''corrective'' = Inr None" .
  from h b n show ?thesis by (intro conjI)
qed

text \<open>
  Claim C7, scoring and selection, as amended. Among the feasible pairs
  \<open>_find_optimal_slot\<close> returns the first one, in the order in which the workshops are
  enumerated, whose score is minimal, and \<open>None\<close> exactly when there is no feasible pair.
  A feasible pair is the next available slot of a workshop with its delay within the bound
  of the priority, and its score is the delay in hours minus 10 times the rating of the
  workshop. A tie is won by the workshop enumerated first, whatever the workshop ids.
\<close>

theorem find_optimal_slot_first_minimal:
  assumes "find_optimal_slot clk table ws p st = Inr r"
  shows "r = map_option snd (first_minimal (feasible_pairs clk table (max_delay_hours p) st 0 ws)) \<and>
         (r = None) = (feasible_pairs clk table (max_delay_hours p) st 0 ws = []) \<and>
         (\<forall>s. r = Some s \<longrightarrow>
            (\<exists>sc. (sc, s) \<in> set (feasible_pairs clk table (max_delay_hours p) st 0 ws) \<and>
                  (\<forall>c\<in>set (feasible_pairs clk table (max_delay_hours p) st 0 ws). sc \<le> fst c))) \<and>
         (\<forall>c\<in>set (feasible_pairs clk table (max_delay_hours p) st 0 ws).
            \<exists>i<length ws. \<exists>rt. rating (ws ! i) = Some rt \<and>
               find_next_available_slot (clk i 0) (clk i 1) table (workshop_id (ws ! i)) st =
                 Some (slot_time (snd c)) \<and>
               slot_workshop_id (snd c) = workshop_id (ws ! i) \<and>
               real_of_int (slot_time (snd c) - clk i 2) / 1000000 / 3600 \<le> real_of_int (max_delay_hours p) \<and>
               fst c = real_of_int (slot_time (snd c) - clk i 2) / 1000000 / 3600 - rt * 10)"
proof -
  let ?cs = "feasible_pairs clk table (max_delay_hours p) st 0 ws"
  have a: "r = map_option snd (first_minimal ?cs)" by (rule find_optimal_slot_eq[OF assms])
  have b: "(r = None) = (?cs = [])" by (simp add: a first_minimal_None)
  have c: "\<forall>s. r = Some s \<longrightarrow> (\<exists>sc. (sc, s) \<in> set ?cs \<and> (\<forall>c\<in>set ?cs. sc \<le> fst c))"
  proof (intro allI impI)
    fix s assume "r = Some s"
    with a obtain sc where "first_minimal ?cs = Some (sc, s)" by (cases "first_minimal ?cs") auto
    from first_minimal_Some[OF this] show "\<exists>sc. (sc, s) \<in> set ?cs \<and> (\<forall>c\<in>set ?cs. sc \<le> fst c)"
      by auto
  qed
  have d: "\<forall>c\<in>set ?cs.
            \<exists>i<length ws. \<exists>rt. rating (ws ! i) = Some rt \<and>
               find_next_available_slot (clk i 0) (clk i 1) table (workshop_id (ws ! i)) st =
                 Some (slot_time (snd c)) \<and>
               slot_workshop_id (snd c) = workshop_id (ws ! i) \<and>
               real_of_int (slot_time (snd c) - clk i 2) / 1000000 / 3600 \<le> real_of_int (max_delay_hours p) \<and>
               fst c = real_of_int (slot_time (snd c) - clk i 2) / 1000000 / 3600 - rt * 10"
  proof
    fix c assume "c \<in> set ?cs"
    from feasible_pairs_nth[OF this] obtain j where j: "j < length ws"
      and cj: "candidate clk table (max_delay_hours p) st j (ws ! j) = Inr (Some (fst c, snd c))" by auto
    from candidate_Some[OF cj] j
    show "\<exists>i<length ws. \<exists>rt. rating (ws ! i) = Some rt \<and>
               find_next_available_slot (clk i 0) (clk i 1) table (workshop_id (ws ! i)) st =
                 Some (slot_time (snd c)) \<and>
               slot_workshop_id (snd c) = workshop_id (ws ! i) \<and>
               real_of_int (slot_time (snd c) - clk i 2) / 1000000 / 3600 \<le> real_of_int (max_delay_hours p) \<and>
               fst c = real_of_int (slot_time (snd c) - clk i 2) / 1000000 / 3600 - rt * 10"
      by blast
  qed
  from a b c d show ?thesis by (intro conjI)
qed

lemma two_workshops:
  "find_optimal_slot (\<lambda>i r. 0) []
     [\<lparr>workshop_id = a, workshop_name = na, location = l, specialties = sp, rating = Some 4.5\<rparr>,
      \<lparr>workshop_id = b, workshop_name = nb, location = l, specialties = sp, rating = Some 4.5\<rparr>]
     ''high'' ''corrective'' =
   Inr (Some \<lparr>slot_workshop_id = a, slot_workshop_name = na, slot_location = l,
              slot_time = 28800000000, slot_estimated_duration = 180, availability_confidence = 0.8\<rparr>)"
  by (simp add: find_optimal_slot_def max_delay_values candidate_at_midnight)

theorem find_optimal_slot_first_minimal_witness:
  "map_option snd (first_minimal (feasible_pairs (\<lambda>i r. 0) [] (max_delay_hours ''high'') ''corrective'' 0
     [\<lparr>workshop_id = ''WS002'', workshop_name = ''B'', location = ''L'', specialties = [''general''],
       rating = Some 4.5\<rparr>,
      \<lparr>workshop_id = ''WS001'', workshop_name = ''A'', location = ''L'', specialties = [''general''],
       rating = Some 4.5\<rparr>])) =
   Some \<lparr>slot_workshop_id = ''WS002'', slot_workshop_name = ''B'', slot_location = ''L'',
         slot_time = 28800000000, slot_estimated_duration = 180, availability_confidence = 0.8\<rparr>"
  using find_optimal_slot_first_minimal[OF two_workshops[of "''WS002''" "''B''" "''L''" "[''general'']" "''WS001''" "''A''"]]
  by simp

theorem find_optimal_slot_first_minimal_counterexample:
  "find_optimal_slot (\<lambda>i r. 0) []
     [\<lparr>workshop_id = ''WS001'', workshop_name = ''A'', location = ''L'', specialties = [''general''],
       rating = Some 4.5\<rparr>,
      \<lparr>workshop_id = ''WS002'', workshop_name = ''B'', location = ''L'', specialties = [''general''],
       rating = Some 4.5\<rparr>] ''high'' ''corrective'' =
   Inr (Some \<lparr>slot_workshop_id = ''WS001'', slot_workshop_name = ''A'', slot_location = ''L'',
              slot_time = 28800000000, slot_estimated_duration = 180, availability_confidence = 0.8\<rparr>) \<and>
   find_optimal_slot (\<lambda>i r. 0) []
     [\<lparr>workshop_id = ''WS002'', workshop_name = ''B'', location = ''L'', specialties = [''general''],
       rating = Some 4.5\<rparr>,
      \<lparr>workshop_id = ''WS001'', workshop_name = ''A'', location = ''L'', specialties = [''general''],
       rating = Some 4.5\<rparr>] ''high'' ''corrective'' =
   Inr (Some \<lparr>slot_workshop_id = ''WS002'', slot_workshop_name = ''B'', slot_location = ''L'',
              slot_time = 28800000000, slot_estimated_duration = 180, availability_confidence = 0.8\<rparr>)"
  by (intro conjI) (rule two_workshops)+



































end
